theory Spec2Isabelle
  imports Main "HOL-Library.AList"
begin

section \<open>The document model\<close>

text \<open>
  The engine of \<^verbatim>\<open>src/index.js\<close> reads and writes DOM nodes through a handful of
  properties and methods. A node is a reference into a heap of node records, so that two
  places holding the same node see each other's attribute writes, as in the browser.
  Only what the source touches is kept: \<^verbatim>\<open>tagName\<close>, the attribute list,
  \<^verbatim>\<open>children\<close>, \<^verbatim>\<open>offsetTop\<close> (the field \<open>elOffsetTop\<close>, since the source
  also has a method of that name), \<^verbatim>\<open>offsetParent\<close> and \<^verbatim>\<open>scrollTop\<close>.
  The type \<open>'p\<close> of pixel quantities is left open: the source adds and compares them and
  does nothing else, so any type with \<open>+\<close>, \<open>0\<close> and \<open>\<le>\<close> will do, the numbers of
  JavaScript included. The example pages use integers.
\<close>

type_synonym ref = nat

record 'p node =
  tagName :: string
  attrs :: "string \<Rightarrow> string option"
  children :: "ref list"
  elOffsetTop :: 'p
  offsetParent :: "ref option"
  scrollTop :: 'p

type_synonym 'p heap = "ref \<Rightarrow> 'p node"

text \<open>
  The two exceptions the source can raise: a \<^verbatim>\<open>TypeError\<close> from reading a property
  of \<^verbatim>\<open>undefined\<close> or \<^verbatim>\<open>null\<close>, and the \<^verbatim>\<open>SyntaxError\<close> of
  \<^verbatim>\<open>querySelector\<close> on a selector that does not parse.
\<close>

datatype jserror = TypeError | SyntaxError

definition getAttribute :: "'p heap \<Rightarrow> ref \<Rightarrow> string \<Rightarrow> string option" where
  "getAttribute h r n = attrs (h r) n"

definition setAttribute :: "'p heap \<Rightarrow> ref \<Rightarrow> string \<Rightarrow> string \<Rightarrow> 'p heap" where
  "setAttribute h r n v = h(r := (h r)\<lparr>attrs := (attrs (h r))(n \<mapsto> v)\<rparr>)"

definition removeAttribute :: "'p heap \<Rightarrow> ref \<Rightarrow> string \<Rightarrow> 'p heap" where
  "removeAttribute h r n = h(r := (h r)\<lparr>attrs := (attrs (h r))(n := None)\<rparr>)"

text \<open>
  \<^verbatim>\<open>getAttribute\<close> yields \<^verbatim>\<open>null\<close> (here \<open>None\<close>) or a string. In a condition
  \<^verbatim>\<open>null\<close> and the empty string are falsy, every other string is truthy. Where the
  value is used as a string (an attribute value, a property key) \<^verbatim>\<open>null\<close> reads
  \<^verbatim>\<open>"null"\<close>.
\<close>

definition truthy :: "string option \<Rightarrow> bool" where
  "truthy v = (case v of None \<Rightarrow> False | Some s \<Rightarrow> s \<noteq> [])"

definition js_string :: "string option \<Rightarrow> string" where
  "js_string v = (case v of None \<Rightarrow> ''null'' | Some s \<Rightarrow> s)"

subsection \<open>Strings\<close>

text \<open>\<^verbatim>\<open>String.prototype.toLowerCase\<close> on the ASCII letters, which is what tag names use.\<close>

definition toLowerChar :: "char \<Rightarrow> char" where
  "toLowerChar c =
     (case map_of (zip ''ABCDEFGHIJKLMNOPQRSTUVWXYZ'' ''abcdefghijklmnopqrstuvwxyz'') c of
        None \<Rightarrow> c
      | Some l \<Rightarrow> l)"

definition toLowerCase :: "string \<Rightarrow> string" where
  "toLowerCase s = map toLowerChar s"

fun startsWith :: "string \<Rightarrow> string \<Rightarrow> bool" where
  "startsWith s [] = True"
| "startsWith [] (c # t) = False"
| "startsWith (a # s) (c # t) = (a = c \<and> startsWith s t)"

text \<open>
  \<^verbatim>\<open>s.indexOf(t)\<close>: the first position at which \<open>t\<close> occurs in \<open>s\<close>, or \<open>-1\<close>.
  The source tests \<^verbatim>\<open>~s.indexOf(t)\<close>, the bitwise complement, which is zero (falsy)
  exactly for \<open>-1\<close>.
\<close>

fun indexOf :: "string \<Rightarrow> string \<Rightarrow> int" where
  "indexOf [] t = (if t = [] then 0 else - 1)"
| "indexOf (a # s) t =
     (if startsWith (a # s) t then 0
      else (let r = indexOf s t in if r = - 1 then - 1 else r + 1))"

declare startsWith.simps [simp del]
declare indexOf.simps [simp del]

definition tilde :: "int \<Rightarrow> int" where
  "tilde i = - i - 1"

section \<open>Activation: \<^verbatim>\<open>Postpone.prototype.load\<close>\<close>

text \<open>
  The two child loops of \<^verbatim>\<open>load\<close> run \<^verbatim>\<open>for ( i = 0; i <= el.children.length; i++ )\<close>.
  \<^verbatim>\<open>el.children\<close> is a live collection, read again at every step. At
  \<^verbatim>\<open>i = el.children.length\<close> the collection yields \<^verbatim>\<open>undefined\<close> and
  \<^verbatim>\<open>child.tagName\<close> raises a \<^verbatim>\<open>TypeError\<close>; the writes made before stay.
  What each loop does to a child that is there is a function of its own.
\<close>

definition load_audio_child :: "'p heap \<Rightarrow> ref \<Rightarrow> 'p heap" where
  "load_audio_child h child =
     (if toLowerCase (tagName (h child)) = ''source''
         \<and> truthy (getAttribute h child ''data-src'')
      then setAttribute h child ''src'' (js_string (getAttribute h child ''data-src''))
      else h)"

definition load_picture_child :: "'p heap \<Rightarrow> ref \<Rightarrow> 'p heap" where
  "load_picture_child h child =
     (if toLowerCase (tagName (h child)) = ''source''
      then
        (let h1 = (if truthy (getAttribute h child ''data-src'')
                   then setAttribute h child ''src''
                          (js_string (getAttribute h child ''data-src''))
                   else h);
             h2 = (if truthy (getAttribute h1 child ''data-srcset'')
                   then setAttribute h1 child ''srcset''
                          (js_string (getAttribute h1 child ''data-srcset''))
                   else h1)
         in h2)
      else h)"

function load_audio_children :: "'p heap \<Rightarrow> ref \<Rightarrow> nat \<Rightarrow> (jserror + unit) \<times> 'p heap" where
  "load_audio_children h el i =
     (if i \<le> length (children (h el)) then
        (if i < length (children (h el))
         then load_audio_children (load_audio_child h (children (h el) ! i)) el (Suc i)
         else (Inl TypeError, h))
      else (Inr (), h))"
  by pat_completeness auto
termination
  by (relation "measure (\<lambda>(h, el, i). Suc (length (children (h el))) - i)")
     (auto simp: load_audio_child_def setAttribute_def)

function load_picture_children :: "'p heap \<Rightarrow> ref \<Rightarrow> nat \<Rightarrow> (jserror + unit) \<times> 'p heap" where
  "load_picture_children h el i =
     (if i \<le> length (children (h el)) then
        (if i < length (children (h el))
         then load_picture_children (load_picture_child h (children (h el) ! i)) el (Suc i)
         else (Inl TypeError, h))
      else (Inr (), h))"
  by pat_completeness auto
termination
  by (relation "measure (\<lambda>(h, el, i). Suc (length (children (h el))) - i)")
     (auto simp: load_picture_child_def setAttribute_def Let_def)

declare load_audio_children.simps [simp del]
declare load_picture_children.simps [simp del]

text \<open>
  \<^verbatim>\<open>load\<close> itself: the marker goes first, then the element's own \<^verbatim>\<open>data-src\<close>,
  then one of three exclusive branches. The result is the returned element or the
  exception, together with the heap as the call left it.
\<close>

definition load :: "'p heap \<Rightarrow> ref \<Rightarrow> (jserror + ref) \<times> 'p heap" where
  "load h0 el =
     (let h1 = removeAttribute h0 el ''postpone'';
          h2 = (if tilde (indexOf ''audio, embed, iframe, img, picture, video''
                            (toLowerCase (tagName (h1 el)))) \<noteq> 0
                   \<and> truthy (getAttribute h1 el ''data-src'')
                then setAttribute h1 el ''src'' (js_string (getAttribute h1 el ''data-src''))
                else h1)
      in if tilde (indexOf ''image, tref, use'' (toLowerCase (tagName (h2 el)))) \<noteq> 0
            \<and> truthy (getAttribute h2 el ''data-xlink:href'')
         then (Inr el, setAttribute h2 el ''xlink:href''
                         (js_string (getAttribute h2 el ''data-xlink:href'')))
         else if tilde (indexOf ''audio, video'' (toLowerCase (tagName (h2 el)))) \<noteq> 0
                 \<and> length (children (h2 el)) \<noteq> 0
         then (case load_audio_children h2 el 0 of
                 (Inl e, h3) \<Rightarrow> (Inl e, h3)
               | (Inr u, h3) \<Rightarrow> (Inr el, h3))
         else if toLowerCase (tagName (h2 el)) = ''picture'' \<and> length (children (h2 el)) \<noteq> 0
         then (case load_picture_children h2 el 0 of
                 (Inl e, h3) \<Rightarrow> (Inl e, h3)
               | (Inr u, h3) \<Rightarrow> (Inr el, h3))
         else (Inr el, h2))"

section \<open>The page and the engine\<close>

text \<open>
  One record holds what a call of the engine can read or write: the node heap, the
  document (its elements in document order, \<^verbatim>\<open>document.body\<close>,
  \<^verbatim>\<open>document.documentElement.clientHeight\<close>), the browser services the source
  calls (\<^verbatim>\<open>document.querySelector\<close>, the \<^verbatim>\<open>outerHTML\<close> serialiser, the clock
  behind \<^verbatim>\<open>new Date().getTime()\<close>), the scroll listeners registered on the window and
  on nodes, and the fields of the \<^verbatim>\<open>Postpone\<close> instance (\<^verbatim>\<open>this.elements\<close>,
  \<^verbatim>\<open>this.scrollElements\<close>, \<^verbatim>\<open>this.timeout\<close>).

  The browser services are parameters. \<open>querySelector\<close> takes the heap as it stands at
  the call, since \<^verbatim>\<open>document.querySelector\<close> matches against the live document and
  the engine writes \<^verbatim>\<open>data-id\<close> attributes into it; it yields the exception it raises,
  \<^verbatim>\<open>null\<close> (\<open>Inr None\<close>) or a node. \<open>clock\<close> is the sequence of clock readings in
  milliseconds and \<open>ticks\<close> counts the readings taken so far.

  \<^verbatim>\<open>this.scrollElements\<close> is an object used as a dictionary from identifiers to arrays
  that carry two extra properties, \<^verbatim>\<open>element\<close> and \<^verbatim>\<open>callback\<close>. Its own
  properties are an association list in insertion order, which is the order
  \<^verbatim>\<open>for ( id in ... )\<close> is taken to follow. \<^verbatim>\<open>element\<close> is the string
  \<^verbatim>\<open>"window"\<close> or a node.
\<close>

datatype scroll_el = Window | Elem ref

datatype event_target = WindowTarget | NodeTarget ref

datatype event_src = SrcDocument | SrcNode ref

record event =
  srcElement :: event_src

record group =
  members :: "ref list"
  element :: scroll_el
  callback :: "nat option"

record 'p state =
  heap :: "'p heap"
  docOrder :: "ref list"
  body :: "ref option"
  clientHeight :: 'p
  querySelector :: "'p heap \<Rightarrow> string \<Rightarrow> jserror + ref option"
  outerHTML :: "'p heap \<Rightarrow> ref \<Rightarrow> string"
  clock :: "nat \<Rightarrow> int"
  ticks :: nat
  listeners :: "(event_target \<times> nat) list"
  elements :: "ref list"
  scrollElements :: "(string \<times> group) list"
  timeout :: "string option"

section \<open>Discovery: \<^verbatim>\<open>Postpone.prototype.getElements\<close>\<close>

text \<open>
  \<^verbatim>\<open>this.tags\<close> is a selector list of type selectors. \<^verbatim>\<open>querySelectorAll\<close> on such
  a list yields, in document order, the elements whose lower-cased tag name is one of
  the listed names.
\<close>

definition tags :: string where
  "tags = ''audio, embed, iframe, img, image, picture, use, video, tref''"

fun split_commas :: "string \<Rightarrow> string \<Rightarrow> string list" where
  "split_commas cur [] = [cur]"
| "split_commas cur (c # s) =
     (if c = CHR '','' then cur # split_commas [] s else split_commas (cur @ [c]) s)"

definition trim :: "string \<Rightarrow> string" where
  "trim s = rev (dropWhile (\<lambda>c. c = CHR '' '') (rev (dropWhile (\<lambda>c. c = CHR '' '') s)))"

definition selector_tags :: "string \<Rightarrow> string list" where
  "selector_tags sel = map trim (split_commas [] sel)"

definition querySelectorAll :: "'p state \<Rightarrow> string \<Rightarrow> ref list" where
  "querySelectorAll st sel =
     filter (\<lambda>r. toLowerCase (tagName (heap st r)) \<in> set (selector_tags sel)) (docOrder st)"

fun getElements_loop :: "'p heap \<Rightarrow> ref list \<Rightarrow> ref list \<Rightarrow> ref list" where
  "getElements_loop h [] found = found"
| "getElements_loop h (m # matches) found =
     (case getAttribute h m ''postpone'' of
        None \<Rightarrow> getElements_loop h matches found
      | Some p \<Rightarrow>
          if p \<noteq> ''false'' then getElements_loop h matches (found @ [m])
          else getElements_loop h matches found)"

definition getElements :: "'p state \<Rightarrow> 'p state" where
  "getElements st = st\<lparr>elements := getElements_loop (heap st) (querySelectorAll st tags) []\<rparr>"

section \<open>Grouping: \<^verbatim>\<open>Postpone.prototype.getScrollElements\<close>\<close>

text \<open>The decimal string of a clock reading, as \<^verbatim>\<open>setAttribute\<close> and a property key see it.\<close>

function digits :: "nat \<Rightarrow> string" where
  "digits n =
     (if n < 10 then [''0123456789'' ! n]
      else digits (n div 10) @ [''0123456789'' ! (n mod 10)])"
  by pat_completeness auto
termination
  by (relation "measure id") auto

declare digits.simps [simp del]

definition show_int :: "int \<Rightarrow> string" where
  "show_int i = (if i < 0 then CHR ''-'' # digits (nat (- i)) else digits (nat i))"

text \<open>
  \<^verbatim>\<open>this.scrollElements\<close> is created as \<^verbatim>\<open>{}\<close>, so reading
  \<^verbatim>\<open>this.scrollElements[ id ]\<close> finds, besides the groups stored under their
  identifiers, the members the object inherits from \<^verbatim>\<open>Object.prototype\<close>. The table
  lists them with their \<^verbatim>\<open>length\<close>: eleven functions, and \<^verbatim>\<open>__proto__\<close>, whose
  value is the prototype object itself and has no \<^verbatim>\<open>length\<close>. None of them is
  enumerable, so \<^verbatim>\<open>for ( id in ... )\<close> does not see them.
\<close>

definition object_prototype :: "(string \<times> nat option) list" where
  "object_prototype =
     [(''constructor'', Some 1), (''hasOwnProperty'', Some 1), (''isPrototypeOf'', Some 1),
      (''propertyIsEnumerable'', Some 1), (''toLocaleString'', Some 0), (''toString'', Some 0),
      (''valueOf'', Some 0), (''__defineGetter__'', Some 2), (''__defineSetter__'', Some 2),
      (''__lookupGetter__'', Some 1), (''__lookupSetter__'', Some 1), (''__proto__'', None)]"

datatype index_entry = Undefined | Own group | Inherited "nat option"

definition index_get :: "(string \<times> group) list \<Rightarrow> string \<Rightarrow> index_entry" where
  "index_get gs ident =
     (case map_of gs ident of
        Some g \<Rightarrow> Own g
      | None \<Rightarrow>
          (case map_of object_prototype ident of
             Some len \<Rightarrow> Inherited len
           | None \<Rightarrow> Undefined))"

text \<open>
  \<^verbatim>\<open>if ( this.scrollElements[ id ] ) push else create\<close>: an existing group gets the
  element appended, a new group is added after the others. An inherited member is truthy
  too, and has no \<^verbatim>\<open>push\<close>: the call raises a \<^verbatim>\<open>TypeError\<close>. The body of the
  \<^verbatim>\<open>for\<close> loop is a function of its own; an exception in it ends the loop with the
  state as it stands.
\<close>

definition add_to_group ::
  "(string \<times> group) list \<Rightarrow> string \<Rightarrow> ref \<Rightarrow> scroll_el \<Rightarrow>
   jserror + (string \<times> group) list" where
  "add_to_group gs ident el se =
     (case index_get gs ident of
        Own g \<Rightarrow> Inr (AList.update ident (g\<lparr>members := members g @ [el]\<rparr>) gs)
      | Inherited len \<Rightarrow> Inl TypeError
      | Undefined \<Rightarrow>
          Inr (AList.update ident \<lparr>members = [el], element = se, callback = None\<rparr> gs))"

definition group_element ::
  "'p state \<Rightarrow> string \<Rightarrow> ref \<Rightarrow> scroll_el \<Rightarrow> (jserror + unit) \<times> 'p state" where
  "group_element st ident el se =
     (case add_to_group (scrollElements st) ident el se of
        Inl e \<Rightarrow> (Inl e, st)
      | Inr gs \<Rightarrow> (Inr (), st\<lparr>scrollElements := gs\<rparr>))"

definition getScrollElements_body :: "'p state \<Rightarrow> ref \<Rightarrow> (jserror + unit) \<times> 'p state" where
  "getScrollElements_body st el =
     (if truthy (getAttribute (heap st) el ''data-scroll-element'') then
        (case querySelector st (heap st)
                (js_string (getAttribute (heap st) el ''data-scroll-element'')) of
           Inl e \<Rightarrow> (Inl e, st)
         | Inr None \<Rightarrow> (Inl TypeError, st)
         | Inr (Some se) \<Rightarrow>
             (if \<not> truthy (getAttribute (heap st) se ''data-id'') then
                (let t = clock st (ticks st);
                     st1 = st\<lparr>heap := setAttribute (heap st) se ''data-id'' (show_int t),
                              ticks := Suc (ticks st)\<rparr>
                 in group_element st1 (show_int t) el (Elem se))
              else group_element st (js_string (getAttribute (heap st) se ''data-id''))
                     el (Elem se)))
      else group_element st ''window'' el Window)"

fun getScrollElements_loop :: "'p state \<Rightarrow> ref list \<Rightarrow> (jserror + unit) \<times> 'p state" where
  "getScrollElements_loop st [] = (Inr (), st)"
| "getScrollElements_loop st (el # rest) =
     (case getScrollElements_body st el of
        (Inl e, st1) \<Rightarrow> (Inl e, st1)
      | (Inr u, st1) \<Rightarrow> getScrollElements_loop st1 rest)"

definition getScrollElements :: "'p state \<Rightarrow> (jserror + unit) \<times> 'p state" where
  "getScrollElements st = getScrollElements_loop (st\<lparr>scrollElements := []\<rparr>) (elements st)"

section \<open>Binding: \<^verbatim>\<open>Postpone.prototype.postpone\<close>\<close>

text \<open>
  A listener is a pair of its target and the identity of its callback. Every call of
  \<^verbatim>\<open>this.scrollHandler.bind( this )\<close> makes a new function object; its identity is a
  number that no registered listener holds. \<^verbatim>\<open>addEventListener\<close> ignores a listener
  that is already registered, so the registry of a page never holds one twice and
  \<^verbatim>\<open>removeEventListener\<close> takes out every copy; an \<^verbatim>\<open>undefined\<close> callback is
  ignored. The target of a group is the window for the identifier \<^verbatim>\<open>"window"\<close> and
  the group's \<^verbatim>\<open>element\<close> otherwise, where calling a method of the string
  \<^verbatim>\<open>"window"\<close> would raise. The loops \<^verbatim>\<open>for ( id in this.scrollElements )\<close>
  visit the groups in the order in which grouping created them; an engine visits
  identifiers that are array indices before the others, which changes the order of the
  listeners in the registry and not their number.
\<close>

definition fresh_callback :: "(event_target \<times> nat) list \<Rightarrow> nat" where
  "fresh_callback ls = Suc (foldr max (map snd ls) 0)"

definition addEventListener ::
  "(event_target \<times> nat) list \<Rightarrow> event_target \<Rightarrow> nat \<Rightarrow> (event_target \<times> nat) list" where
  "addEventListener ls t c = (if (t, c) \<in> set ls then ls else ls @ [(t, c)])"

definition removeEventListener ::
  "(event_target \<times> nat) list \<Rightarrow> event_target \<Rightarrow> nat option \<Rightarrow> (event_target \<times> nat) list" where
  "removeEventListener ls t cb = (case cb of None \<Rightarrow> ls | Some c \<Rightarrow> removeAll (t, c) ls)"

definition listener_target :: "string \<Rightarrow> group \<Rightarrow> jserror + event_target" where
  "listener_target ident g =
     (if ident = ''window'' then Inr WindowTarget
      else (case element g of Elem r \<Rightarrow> Inr (NodeTarget r) | Window \<Rightarrow> Inl TypeError))"

fun unbind_loop ::
  "(event_target \<times> nat) list \<Rightarrow> (string \<times> group) list \<Rightarrow>
   (jserror + unit) \<times> (event_target \<times> nat) list" where
  "unbind_loop ls [] = (Inr (), ls)"
| "unbind_loop ls ((ident, g) # gs) =
     (case listener_target ident g of
        Inl e \<Rightarrow> (Inl e, ls)
      | Inr t \<Rightarrow> unbind_loop (removeEventListener ls t (callback g)) gs)"

fun bind_loop ::
  "(event_target \<times> nat) list \<Rightarrow> (string \<times> group) list \<Rightarrow> (string \<times> group) list \<Rightarrow>
   (jserror + unit) \<times> (event_target \<times> nat) list \<times> (string \<times> group) list" where
  "bind_loop ls bound [] = (Inr (), ls, bound)"
| "bind_loop ls bound ((ident, g) # gs) =
     (let c = fresh_callback ls;
          g1 = g\<lparr>callback := Some c\<rparr>
      in case listener_target ident g1 of
           Inl e \<Rightarrow> (Inl e, ls, bound @ (ident, g1) # gs)
         | Inr t \<Rightarrow> bind_loop (addEventListener ls t c) (bound @ [(ident, g1)]) gs)"

definition postpone :: "'p state \<Rightarrow> (jserror + unit) \<times> 'p state" where
  "postpone st =
     (case unbind_loop (listeners st) (scrollElements st) of
        (Inl e, ls) \<Rightarrow> (Inl e, st\<lparr>listeners := ls\<rparr>)
      | (Inr u, ls) \<Rightarrow>
          (let st1 = st\<lparr>listeners := ls\<rparr> in
           if length (elements st1) \<noteq> 0 then
             (let st2 = getElements st1 in
              case getScrollElements st2 of
                (Inl e, st3) \<Rightarrow> (Inl e, st3)
              | (Inr u, st3) \<Rightarrow>
                  (case bind_loop (listeners st3) [] (scrollElements st3) of
                     (r, ls1, gs1) \<Rightarrow> (r, st3\<lparr>listeners := ls1, scrollElements := gs1\<rparr>)))
           else (Inr (), st1)))"

section \<open>Polling: \<^verbatim>\<open>stringifyElements\<close> and \<^verbatim>\<open>watch\<close>\<close>

fun stringifyElements_loop :: "'p state \<Rightarrow> ref list \<Rightarrow> string \<Rightarrow> string" where
  "stringifyElements_loop st [] elementsString = elementsString"
| "stringifyElements_loop st (el # els) elementsString =
     stringifyElements_loop st els (elementsString @ outerHTML st (heap st) el)"

definition stringifyElements :: "'p state \<Rightarrow> ref list \<Rightarrow> string" where
  "stringifyElements st els = stringifyElements_loop st els []"

text \<open>
  \<^verbatim>\<open>watch( elementsString )\<close>: the argument is absent (\<open>None\<close>) on the call made by
  \<^verbatim>\<open>start\<close> and is the previous snapshot on the calls made by the timer. The timer set
  at the end holds the new snapshot for the next call; \<open>timeout\<close> records it. When
  \<^verbatim>\<open>postpone\<close> raises, no timer is set.
\<close>

definition watch :: "string option \<Rightarrow> 'p state \<Rightarrow> (jserror + unit) \<times> 'p state" where
  "watch elementsString st =
     (let st1 = getElements st;
          newElementsString = stringifyElements st1 (elements st1)
      in if truthy elementsString \<and> elementsString \<noteq> Some newElementsString then
           (case postpone st1 of
              (Inl e, st2) \<Rightarrow> (Inl e, st2)
            | (Inr u, st2) \<Rightarrow> (Inr (), st2\<lparr>timeout := Some newElementsString\<rparr>))
         else (Inr (), st1\<lparr>timeout := Some newElementsString\<rparr>))"

section \<open>Geometry: \<^verbatim>\<open>offsetTop\<close> and \<^verbatim>\<open>isVisible\<close>\<close>

text \<open>
  The loop of \<^verbatim>\<open>offsetTop\<close> follows \<^verbatim>\<open>offsetParent\<close> until it is \<^verbatim>\<open>null\<close> or the
  body. Nothing in the heap bounds that walk, so the loop is a partial function and
  \<open>None\<close> stands for a walk that never ends.
\<close>

partial_function (option) offsetTop_loop ::
  "('p::plus) heap \<Rightarrow> ref option \<Rightarrow> 'p \<Rightarrow> 'p option" where
  "offsetTop_loop h temp ofs =
     (case temp of
        None \<Rightarrow> Some ofs
      | Some r \<Rightarrow>
          if toLowerCase (tagName (h r)) \<noteq> ''body''
          then offsetTop_loop h (offsetParent (h r)) (ofs + elOffsetTop (h r))
          else Some ofs)"

text \<open>
  \<^verbatim>\<open>offsetTop( el )\<close> guards the loop with \<^verbatim>\<open>temp && ...\<close>, so it also takes
  \<^verbatim>\<open>undefined\<close> (\<open>None\<close>) and returns 0 for it.
\<close>

definition offsetTop :: "('p::{plus,zero}) heap \<Rightarrow> ref option \<Rightarrow> 'p option" where
  "offsetTop h el = offsetTop_loop h el 0"

text \<open>
  \<^verbatim>\<open>isVisible( el, scrollElement )\<close>: an absent container and the string
  \<^verbatim>\<open>"window"\<close> stand for \<^verbatim>\<open>document.body\<close>, which may be \<^verbatim>\<open>null\<close>; then
  reading its \<^verbatim>\<open>scrollTop\<close> raises, after the offset of \<open>el\<close> has been computed.
\<close>

definition isVisible ::
  "('p::{plus,zero,ord}) state \<Rightarrow> ref option \<Rightarrow> scroll_el option \<Rightarrow> (jserror + bool) option" where
  "isVisible st el scrollElement =
     (let viewPortHeight = clientHeight st in
      case offsetTop (heap st) el of
        None \<Rightarrow> None
      | Some elTop \<Rightarrow>
          (case (case (case scrollElement of None \<Rightarrow> Window | Some s \<Rightarrow> s) of
                   Window \<Rightarrow> body st
                 | Elem r \<Rightarrow> Some r) of
             None \<Rightarrow> Some (Inl TypeError)
           | Some c \<Rightarrow>
               (case offsetTop (heap st) (Some c) of
                  None \<Rightarrow> None
                | Some containerTop \<Rightarrow>
                    (let scrollHeight = scrollTop (heap st c) + containerTop
                     in Some (Inr (viewPortHeight + scrollHeight \<ge> elTop))))))"

section \<open>The scroll handler: \<^verbatim>\<open>Postpone.prototype.scrollHandler\<close>\<close>

text \<open>
  The key under which the handler looks the group up: \<^verbatim>\<open>"window"\<close> for an event of
  the document, the \<^verbatim>\<open>data-id\<close> of the source node otherwise (a missing attribute
  reads as the key \<^verbatim>\<open>"null"\<close>). A key that names nothing gives \<^verbatim>\<open>undefined\<close>,
  and reading its \<^verbatim>\<open>length\<close> raises. A key that names an inherited member gives that
  member: the loop runs \<^verbatim>\<open>length\<close> times over elements that are \<^verbatim>\<open>undefined\<close>,
  or not at all when there is no \<^verbatim>\<open>length\<close>. \<^verbatim>\<open>this.load( undefined )\<close> raises at
  its first statement and writes nothing.
\<close>

definition event_key :: "'p state \<Rightarrow> event \<Rightarrow> string" where
  "event_key st e =
     (case srcElement e of
        SrcDocument \<Rightarrow> ''window''
      | SrcNode r \<Rightarrow> js_string (getAttribute (heap st) r ''data-id''))"

definition event_scroll_el :: "event \<Rightarrow> scroll_el" where
  "event_scroll_el e = (case srcElement e of SrcDocument \<Rightarrow> Window | SrcNode r \<Rightarrow> Elem r)"

fun scrollHandler_loop ::
  "('p::{plus,zero,ord}) state \<Rightarrow> ref option list \<Rightarrow> scroll_el \<Rightarrow>
   ((jserror + unit) \<times> 'p state) option" where
  "scrollHandler_loop st [] scrollElement = Some (Inr (), st)"
| "scrollHandler_loop st (el # rest) scrollElement =
     (case isVisible st el (Some scrollElement) of
        None \<Rightarrow> None
      | Some (Inl e) \<Rightarrow> Some (Inl e, st)
      | Some (Inr visible) \<Rightarrow>
          if visible then
            (case el of
               None \<Rightarrow> Some (Inl TypeError, st)
             | Some node \<Rightarrow>
                 (case load (heap st) node of
                    (Inl e, h) \<Rightarrow> Some (Inl e, st\<lparr>heap := h\<rparr>)
                  | (Inr r, h) \<Rightarrow> scrollHandler_loop (st\<lparr>heap := h\<rparr>) rest scrollElement))
          else scrollHandler_loop st rest scrollElement)"

definition scrollHandler ::
  "('p::{plus,zero,ord}) state \<Rightarrow> event \<Rightarrow> ((jserror + unit) \<times> 'p state) option" where
  "scrollHandler st e =
     (case index_get (scrollElements st) (event_key st e) of
        Undefined \<Rightarrow> Some (Inl TypeError, st)
      | Own g \<Rightarrow> scrollHandler_loop st (map Some (members g)) (event_scroll_el e)
      | Inherited None \<Rightarrow> Some (Inr (), st)
      | Inherited (Some n) \<Rightarrow> scrollHandler_loop st (replicate n None) (event_scroll_el e))"

section \<open>Notions of the specification\<close>

text \<open>
  The specification speaks of elements that carry the marker (the attribute is present and
  is not the string \<^verbatim>\<open>"false"\<close>), of the allow-listed tag kinds, and of the offset
  of an element summed over its chain of offset parents up to, and excluding, the body
  (from the element upwards, starting at 0). These are stated here in the specification's
  words, apart from the loops of the source.
\<close>

definition marked :: "'p heap \<Rightarrow> ref \<Rightarrow> bool" where
  "marked h r = (case getAttribute h r ''postpone'' of None \<Rightarrow> False | Some p \<Rightarrow> p \<noteq> ''false'')"

definition allow_listed :: "'p heap \<Rightarrow> ref \<Rightarrow> bool" where
  "allow_listed h r =
     (toLowerCase (tagName (h r)) \<in>
        {''audio'', ''embed'', ''iframe'', ''img'', ''image'', ''picture'', ''use'', ''video'', ''tref''})"

fun offset_chain :: "'p heap \<Rightarrow> ref option \<Rightarrow> ref list \<Rightarrow> bool" where
  "offset_chain h temp [] =
     (case temp of None \<Rightarrow> True | Some r \<Rightarrow> toLowerCase (tagName (h r)) = ''body'')"
| "offset_chain h temp (x # xs) =
     (temp = Some x \<and> toLowerCase (tagName (h x)) \<noteq> ''body''
      \<and> offset_chain h (offsetParent (h x)) xs)"

definition chain_offset :: "('p::{plus,zero}) heap \<Rightarrow> ref list \<Rightarrow> 'p" where
  "chain_offset h xs = foldl (\<lambda>total r. total + elOffsetTop (h r)) 0 xs"


subsection \<open>Invariants of activation\<close>

text \<open>
  Activation writes \<^verbatim>\<open>src\<close>, \<^verbatim>\<open>srcset\<close> and \<^verbatim>\<open>xlink:href\<close>, each from the
  attribute of the same node named \<^verbatim>\<open>data-\<close> and the same. \<open>copied h x a\<close> says that
  node \<open>x\<close> already holds that copy of attribute \<open>a\<close>; \<open>kept h h'\<close> says that \<open>h'\<close>
  differs from \<open>h\<close> in those three attributes at most and has lost no copy.
\<close>

definition copied :: "'p heap \<Rightarrow> ref \<Rightarrow> string \<Rightarrow> bool" where
  "copied h x a = (getAttribute h x a = Some (js_string (getAttribute h x (''data-'' @ a))))"

definition kept :: "'p heap \<Rightarrow> 'p heap \<Rightarrow> bool" where
  "kept h h' =
     (\<forall>x. tagName (h' x) = tagName (h x) \<and> children (h' x) = children (h x)
        \<and> (\<forall>n. n \<notin> {''src'', ''srcset'', ''xlink:href''} \<longrightarrow>
               getAttribute h' x n = getAttribute h x n)
        \<and> (\<forall>a \<in> {''src'', ''srcset'', ''xlink:href''}. copied h x a \<longrightarrow> copied h' x a))"

subsection \<open>Invariants of grouping and binding\<close>


definition heap_ext :: "'p heap \<Rightarrow> 'p heap \<Rightarrow> bool" where
  "heap_ext h h' =
     (\<forall>r. tagName (h' r) = tagName (h r)
        \<and> (\<forall>n. n \<noteq> ''data-id'' \<longrightarrow> getAttribute h' r n = getAttribute h r n)
        \<and> (truthy (getAttribute h r ''data-id'') \<longrightarrow>
             getAttribute h' r ''data-id'' = getAttribute h r ''data-id''))"

definition ext :: "'p state \<Rightarrow> 'p state \<Rightarrow> bool" where
  "ext st st' =
     (querySelector st' = querySelector st \<and> docOrder st' = docOrder st
      \<and> listeners st' = listeners st \<and> elements st' = elements st
      \<and> heap_ext (heap st) (heap st'))"




section \<open>Example pages\<close>

text \<open>
  Small pages on which the functions are run. Node numbers stand for the nodes of the
  page; every other number is an empty node.
\<close>

definition blank_node :: "int node" where
  "blank_node = \<lparr>tagName = [], attrs = (\<lambda>n. None), children = [], elOffsetTop = 0,
                   offsetParent = None, scrollTop = 0\<rparr>"

definition blank_state :: "int state" where
  "blank_state = \<lparr>heap = (\<lambda>r. blank_node), docOrder = [], body = None, clientHeight = 0,
                    querySelector = (\<lambda>h s. Inr None), outerHTML = (\<lambda>h r. []),
                    clock = (\<lambda>n. 0), ticks = 0, listeners = [], elements = [],
                    scrollElements = [], timeout = None\<rparr>"

text \<open>
  A \<^verbatim>\<open>picture\<close> still carrying its marker, with two \<^verbatim>\<open>source\<close> children that
  each carry \<^verbatim>\<open>data-src\<close> and \<^verbatim>\<open>data-srcset\<close>.
\<close>

definition picture_heap :: "int heap" where
  "picture_heap =
     (\<lambda>r. blank_node)
     (1 := blank_node\<lparr>tagName := ''PICTURE'', attrs := [''postpone'' \<mapsto> ''''], children := [2, 3]\<rparr>,
      2 := blank_node\<lparr>tagName := ''SOURCE'',
             attrs := [''data-src'' \<mapsto> ''a.webp'', ''data-srcset'' \<mapsto> ''a2.webp 2x'']\<rparr>,
      3 := blank_node\<lparr>tagName := ''SOURCE'',
             attrs := [''data-src'' \<mapsto> ''a.jpg'', ''data-srcset'' \<mapsto> ''a2.jpg 2x'']\<rparr>)"

text \<open>
  A page whose index holds the viewport group only, and a scrollable \<^verbatim>\<open>div\<close> (node 5,
  \<^verbatim>\<open>data-id="c9"\<close>) that no group is keyed by. One event comes from that \<^verbatim>\<open>div\<close>,
  the other from the image, which has no \<^verbatim>\<open>data-id\<close> at all.
\<close>

definition c1_state :: "int state" where
  "c1_state = blank_state
     \<lparr>heap := (\<lambda>r. blank_node)
        (1 := blank_node\<lparr>tagName := ''IMG'',
               attrs := [''postpone'' \<mapsto> '''', ''data-src'' \<mapsto> ''a.jpg'']\<rparr>,
         5 := blank_node\<lparr>tagName := ''DIV'', attrs := [''data-id'' \<mapsto> ''c9'']\<rparr>),
      docOrder := [5, 1],
      listeners := [(WindowTarget, 1)],
      elements := [1],
      scrollElements := [(''window'', \<lparr>members = [1], element = Window, callback = Some 1\<rparr>)]\<rparr>"

definition c1_event :: event where
  "c1_event = \<lparr>srcElement = SrcNode 5\<rparr>"

definition c1_event_no_id :: event where
  "c1_event_no_id = \<lparr>srcElement = SrcNode 1\<rparr>"

text \<open>
  The same page with a second unregistered \<^verbatim>\<open>div\<close> (node 6) whose author chose
  \<^verbatim>\<open>data-id="toString"\<close>, and an event from it.
\<close>

definition c1_inherited_state :: "int state" where
  "c1_inherited_state = c1_state
     \<lparr>heap := (heap c1_state)
        (6 := blank_node\<lparr>tagName := ''DIV'', attrs := [''data-id'' \<mapsto> ''toString'']\<rparr>)\<rparr>"

definition c1_inherited_event :: event where
  "c1_inherited_event = \<lparr>srcElement = SrcNode 6\<rparr>"

text \<open>
  Two pages with an image whose \<^verbatim>\<open>data-scroll-element\<close> selector matches nothing,
  next to images that scroll with the viewport.
\<close>

definition c2_state :: "int state" where
  "c2_state = blank_state
     \<lparr>heap := (\<lambda>r. blank_node)
        (1 := blank_node\<lparr>tagName := ''IMG'',
               attrs := [''postpone'' \<mapsto> '''', ''data-scroll-element'' \<mapsto> ''#gone'']\<rparr>,
         2 := blank_node\<lparr>tagName := ''IMG'', attrs := [''postpone'' \<mapsto> '''']\<rparr>),
      docOrder := [1, 2],
      elements := [1, 2]\<rparr>"

definition c2_later_state :: "int state" where
  "c2_later_state = blank_state
     \<lparr>heap := (\<lambda>r. blank_node)
        (1 := blank_node\<lparr>tagName := ''IMG'', attrs := [''postpone'' \<mapsto> '''']\<rparr>,
         2 := blank_node\<lparr>tagName := ''IMG'',
               attrs := [''postpone'' \<mapsto> '''', ''data-scroll-element'' \<mapsto> ''#gone'']\<rparr>,
         3 := blank_node\<lparr>tagName := ''IMG'', attrs := [''postpone'' \<mapsto> '''']\<rparr>),
      docOrder := [1, 2, 3],
      elements := [1, 2, 3]\<rparr>"

text \<open>
  A page on which the previous poll found no candidate (its snapshot was the empty
  string) and to which an image has been added since. The serialiser writes the tag
  alone, which is enough to tell the snapshots apart.
\<close>

definition c3_state :: "int state" where
  "c3_state = blank_state
     \<lparr>heap := (\<lambda>r. blank_node)
        (1 := blank_node\<lparr>tagName := ''IMG'',
               attrs := [''postpone'' \<mapsto> '''', ''data-src'' \<mapsto> ''a.jpg'']\<rparr>),
      docOrder := [1],
      outerHTML := (\<lambda>h r. ''<'' @ toLowerCase (tagName (h r)) @ ''>''),
      timeout := Some []\<rparr>"



text \<open>
  Five elements: a marked image, an image opted out with \<^verbatim>\<open>postpone="false"\<close>, a
  marked \<^verbatim>\<open>div\<close>, a marked video and an unmarked \<^verbatim>\<open>iframe\<close>.
\<close>

definition c7_state :: "int state" where
  "c7_state = blank_state
     \<lparr>heap := (\<lambda>r. blank_node)
        (1 := blank_node\<lparr>tagName := ''IMG'', attrs := [''postpone'' \<mapsto> '''']\<rparr>,
         2 := blank_node\<lparr>tagName := ''IMG'', attrs := [''postpone'' \<mapsto> ''false'']\<rparr>,
         3 := blank_node\<lparr>tagName := ''DIV'', attrs := [''postpone'' \<mapsto> '''']\<rparr>,
         4 := blank_node\<lparr>tagName := ''VIDEO'', attrs := [''postpone'' \<mapsto> ''true'']\<rparr>,
         5 := blank_node\<lparr>tagName := ''IFRAME''\<rparr>),
      docOrder := [1, 2, 3, 4, 5]\<rparr>"

text \<open>
  An image 150 pixels down the page (50 within a positioned \<^verbatim>\<open>div\<close> that sits at 100),
  a viewport 600 pixels high, and the body scrolled by 300: the image lies above the
  visible region. A second image sits at 1000, and a scrollable \<^verbatim>\<open>div\<close> (node 3) at 40
  is scrolled by 500: measured against the viewport the second image is not visible
  (600 + 300 < 1000), measured against the \<^verbatim>\<open>div\<close> it is (600 + 540 \<open>\<ge>\<close> 1000).
\<close>

definition c8_state :: "int state" where
  "c8_state = blank_state
     \<lparr>heap := (\<lambda>r. blank_node)
        (0 := blank_node\<lparr>tagName := ''BODY'', scrollTop := 300\<rparr>,
         1 := blank_node\<lparr>tagName := ''IMG'', attrs := [''postpone'' \<mapsto> []],
               elOffsetTop := 50, offsetParent := Some 2\<rparr>,
         2 := blank_node\<lparr>tagName := ''DIV'', elOffsetTop := 100, offsetParent := Some 0\<rparr>,
         3 := blank_node\<lparr>tagName := ''DIV'', elOffsetTop := 40, offsetParent := Some 0,
               scrollTop := 500\<rparr>,
         4 := blank_node\<lparr>tagName := ''IMG'', attrs := [''postpone'' \<mapsto> []],
               elOffsetTop := 1000, offsetParent := Some 0\<rparr>),
      docOrder := [0, 2, 1, 3, 4],
      body := Some 0,
      clientHeight := 600\<rparr>"

text \<open>
  Two images that scroll with two different containers, neither of which has a
  \<^verbatim>\<open>data-id\<close>, and a clock that reads the same millisecond throughout the pass.
\<close>

definition c9_state :: "int state" where
  "c9_state = blank_state
     \<lparr>heap := (\<lambda>r. blank_node)
        (1 := blank_node\<lparr>tagName := ''IMG'',
               attrs := [''postpone'' \<mapsto> '''', ''data-scroll-element'' \<mapsto> ''#left'']\<rparr>,
         2 := blank_node\<lparr>tagName := ''IMG'',
               attrs := [''postpone'' \<mapsto> '''', ''data-scroll-element'' \<mapsto> ''#right'']\<rparr>,
         10 := blank_node\<lparr>tagName := ''DIV''\<rparr>,
         11 := blank_node\<lparr>tagName := ''DIV''\<rparr>),
      docOrder := [10, 1, 11, 2],
      querySelector := (\<lambda>h s. if s = ''#left'' then Inr (Some 10)
                              else if s = ''#right'' then Inr (Some 11) else Inr None),
      clock := (\<lambda>n. 1700000000000),
      elements := [1, 2]\<rparr>"

section \<open>Properties of the document model\<close>

lemma tagName_setAttribute [simp]: "tagName (setAttribute h r n v x) = tagName (h x)"
  by (simp add: setAttribute_def)

lemma children_setAttribute [simp]: "children (setAttribute h r n v x) = children (h x)"
  by (simp add: setAttribute_def)

lemma tagName_removeAttribute [simp]: "tagName (removeAttribute h r n x) = tagName (h x)"
  by (simp add: removeAttribute_def)

lemma children_removeAttribute [simp]: "children (removeAttribute h r n x) = children (h x)"
  by (simp add: removeAttribute_def)

lemma getAttribute_setAttribute:
  "getAttribute (setAttribute h r n v) r' n' = (if r' = r \<and> n' = n then Some v else getAttribute h r' n')"
  by (simp add: getAttribute_def setAttribute_def)

lemma getAttribute_removeAttribute:
  "getAttribute (removeAttribute h r n) r' n' = (if r' = r \<and> n' = n then None else getAttribute h r' n')"
  by (simp add: getAttribute_def removeAttribute_def)

lemma js_string_Some [simp]: "js_string (Some s) = s"
  by (simp add: js_string_def)

text \<open>A clock reading never prints as the empty string, so an assigned identifier is truthy.\<close>

lemma digits_nonempty: "digits n \<noteq> []"
  by (subst digits.simps) simp

lemma show_int_nonempty: "show_int i \<noteq> []"
  by (simp add: show_int_def digits_nonempty)

lemma truthy_show_int [simp]: "truthy (Some (show_int i))"
  by (simp add: truthy_def show_int_nonempty)

lemma show_example: "show_int 1700000000000 = ''1700000000000''"
  by (simp add: show_int_def digits.simps)

text \<open>Unfolding sets for running the functions on the example pages.\<close>

lemmas eval_defs = getScrollElements_def getScrollElements_body_def Let_def blank_state_def blank_node_def
  getAttribute_def setAttribute_def truthy_def js_string_def add_to_group_def group_element_def
  index_get_def object_prototype_def

lemma lower_examples:
  "toLowerCase ''IMG'' = ''img''" "toLowerCase ''DIV'' = ''div''"
  "toLowerCase ''VIDEO'' = ''video''" "toLowerCase ''IFRAME'' = ''iframe''"
  "toLowerCase ''BODY'' = ''body''" "toLowerCase ''PICTURE'' = ''picture''"
  "toLowerCase ''SOURCE'' = ''source''"
  by (simp_all add: toLowerCase_def toLowerChar_def)

lemma indexOf_picture:
  "indexOf ''audio, embed, iframe, img, picture, video'' ''picture'' = 27"
  "indexOf ''image, tref, use'' ''picture'' = - 1"
  "indexOf ''audio, video'' ''picture'' = - 1"
  by (simp_all add: indexOf.simps startsWith.simps)

lemmas load_eval = load_def Let_def picture_heap_def blank_node_def removeAttribute_def
  setAttribute_def getAttribute_def truthy_def js_string_def tilde_def lower_examples
  indexOf_picture load_picture_children.simps load_picture_child_def

section \<open>Activation\<close>

text \<open>Writing what is there already, or removing what is not, changes nothing.\<close>

lemma setAttribute_same:
  "getAttribute h r n = Some v \<Longrightarrow> setAttribute h r n v = h"
  by (auto simp: getAttribute_def setAttribute_def fun_upd_idem)

lemma removeAttribute_absent:
  "getAttribute h r n = None \<Longrightarrow> removeAttribute h r n = h"
  by (auto simp: getAttribute_def removeAttribute_def fun_upd_idem)

lemma copied_same:
  "copied h c a \<Longrightarrow> setAttribute h c a (js_string (getAttribute h c (''data-'' @ a))) = h"
  by (simp add: copied_def setAttribute_same)

text \<open>Every step of activation keeps the heap in the sense of \<open>kept\<close>.\<close>

lemma kept_refl: "kept h h"
  by (simp add: kept_def)

lemma kept_trans: "kept h h1 \<Longrightarrow> kept h1 h2 \<Longrightarrow> kept h h2"
  by (simp add: kept_def)

lemma kept_set:
  assumes "a \<in> {''src'', ''srcset'', ''xlink:href''}"
  shows "kept h (setAttribute h c a (js_string (getAttribute h c (''data-'' @ a))))"
  using assms by (auto simp: kept_def copied_def getAttribute_setAttribute)

lemma copied_set:
  assumes "a \<in> {''src'', ''srcset'', ''xlink:href''}"
  shows "copied (setAttribute h c a (js_string (getAttribute h c (''data-'' @ a)))) c a"
  using assms by (auto simp: copied_def getAttribute_setAttribute)

lemma load_audio_child_kept: "kept h (load_audio_child h c)"
  using kept_set [of "''src''" h c] by (simp add: load_audio_child_def kept_refl)

lemma load_picture_child_kept: "kept h (load_picture_child h c)"
proof -
  let ?h1 = "if truthy (getAttribute h c ''data-src'')
             then setAttribute h c ''src'' (js_string (getAttribute h c ''data-src'')) else h"
  have 1: "kept h ?h1"
    using kept_set [of "''src''" h c] by (simp add: kept_refl)
  have 2: "kept ?h1 (if truthy (getAttribute ?h1 c ''data-srcset'')
             then setAttribute ?h1 c ''srcset'' (js_string (getAttribute ?h1 c ''data-srcset''))
             else ?h1)"
    using kept_set [of "''srcset''" ?h1 c] by (simp add: kept_refl)
  from kept_trans [OF 1 2] show ?thesis
    by (simp add: load_picture_child_def Let_def kept_refl)
qed

lemma load_audio_children_kept: "kept h (snd (load_audio_children h el i))"
proof (induction h el i rule: load_audio_children.induct)
  case (1 h el i)
  show ?case
  proof (cases "i < length (children (h el))")
    case True
    with "1.IH" have "kept (load_audio_child h (children (h el) ! i))
                        (snd (load_audio_children h el i))"
      by (subst load_audio_children.simps) simp
    with load_audio_child_kept show ?thesis by (rule kept_trans)
  next
    case False
    then show ?thesis
      by (subst load_audio_children.simps) (simp add: kept_refl)
  qed
qed

lemma load_picture_children_kept: "kept h (snd (load_picture_children h el i))"
proof (induction h el i rule: load_picture_children.induct)
  case (1 h el i)
  show ?case
  proof (cases "i < length (children (h el))")
    case True
    with "1.IH" have "kept (load_picture_child h (children (h el) ! i))
                        (snd (load_picture_children h el i))"
      by (subst load_picture_children.simps) simp
    with load_picture_child_kept show ?thesis by (rule kept_trans)
  next
    case False
    then show ?thesis
      by (subst load_picture_children.simps) (simp add: kept_refl)
  qed
qed

lemma snd_rewrap [simp]:
  "snd (case p of (Inl e, h3) \<Rightarrow> (Inl e, h3) | (Inr u, h3) \<Rightarrow> (Inr el, h3)) = snd p"
  by (cases p; cases "fst p") auto

lemma load_kept: "kept (removeAttribute h el ''postpone'') (snd (load h el))"
proof -
  let ?h1 = "removeAttribute h el ''postpone''"
  define h2 where "h2 = (if tilde (indexOf ''audio, embed, iframe, img, picture, video''
                            (toLowerCase (tagName (?h1 el)))) \<noteq> 0
                   \<and> truthy (getAttribute ?h1 el ''data-src'')
                then setAttribute ?h1 el ''src'' (js_string (getAttribute ?h1 el ''data-src''))
                else ?h1)"
  have k12: "kept ?h1 h2"
    using kept_set [of "''src''" ?h1 el] by (simp add: h2_def kept_refl)
  have "kept h2 (snd (load h el))"
    unfolding load_def Let_def h2_def [symmetric]
    using kept_set [of "''xlink:href''" h2 el]
      load_audio_children_kept [of h2 el 0] load_picture_children_kept [of h2 el 0]
    by (simp add: kept_refl)
  with k12 show ?thesis by (rule kept_trans)
qed

text \<open>
  Run again on the heap it left, a child step changes nothing and a child loop ends as it
  ended before; so does \<^verbatim>\<open>load\<close>, which therefore leaves the same attributes, and
  raises again wherever it raised.
\<close>

lemma load_audio_child_rerun:
  assumes "kept (load_audio_child h c) h'"
  shows "load_audio_child h' c = h'"
proof -
  from kept_trans [OF load_audio_child_kept assms] have k: "kept h h'" .
  then have same: "tagName (h' c) = tagName (h c)"
    "getAttribute h' c ''data-src'' = getAttribute h c ''data-src''"
    by (simp_all add: kept_def)
  show ?thesis
  proof (cases "toLowerCase (tagName (h c)) = ''source'' \<and> truthy (getAttribute h c ''data-src'')")
    case False
    with same show ?thesis by (auto simp: load_audio_child_def)
  next
    case True
    then have "copied (load_audio_child h c) c ''src''"
      using copied_set [of "''src''" h c] by (simp add: load_audio_child_def)
    with assms have "copied h' c ''src''" by (simp add: kept_def)
    from copied_same [OF this] show ?thesis by (simp add: load_audio_child_def)
  qed
qed

lemma load_picture_child_rerun:
  assumes "kept (load_picture_child h c) h'"
  shows "load_picture_child h' c = h'"
proof -
  from kept_trans [OF load_picture_child_kept assms] have k: "kept h h'" .
  then have same: "tagName (h' c) = tagName (h c)"
    "getAttribute h' c ''data-src'' = getAttribute h c ''data-src''"
    "getAttribute h' c ''data-srcset'' = getAttribute h c ''data-srcset''"
    by (simp_all add: kept_def)
  let ?h1 = "if truthy (getAttribute h c ''data-src'')
             then setAttribute h c ''src'' (js_string (getAttribute h c ''data-src'')) else h"
  have s1: "getAttribute ?h1 c ''data-srcset'' = getAttribute h c ''data-srcset''"
    by (simp add: getAttribute_setAttribute)
  show ?thesis
  proof (cases "toLowerCase (tagName (h c)) = ''source''")
    case False
    with same show ?thesis by (simp add: load_picture_child_def)
  next
    case True
    have a: "truthy (getAttribute h c ''data-src'') \<Longrightarrow> copied h' c ''src''"
    proof -
      assume t: "truthy (getAttribute h c ''data-src'')"
      then have "copied ?h1 c ''src''"
        using copied_set [of "''src''" h c] by simp
      moreover have "kept ?h1 (load_picture_child h c)"
        using True kept_set [of "''srcset''" ?h1 c]
        by (simp add: load_picture_child_def Let_def kept_refl)
      ultimately have "copied (load_picture_child h c) c ''src''" by (simp add: kept_def)
      with assms show ?thesis by (simp add: kept_def)
    qed
    have b: "truthy (getAttribute h c ''data-srcset'') \<Longrightarrow> copied h' c ''srcset''"
    proof -
      assume t: "truthy (getAttribute h c ''data-srcset'')"
      then have "copied (load_picture_child h c) c ''srcset''"
        using True s1 copied_set [of "''srcset''" ?h1 c]
        by (simp add: load_picture_child_def Let_def)
      with assms show ?thesis by (simp add: kept_def)
    qed
    have 1: "(if truthy (getAttribute h' c ''data-src'')
              then setAttribute h' c ''src'' (js_string (getAttribute h' c ''data-src''))
              else h') = h'"
      using a same(2) copied_same [of h' c "''src''"] by auto
    have 2: "(if truthy (getAttribute h' c ''data-srcset'')
              then setAttribute h' c ''srcset'' (js_string (getAttribute h' c ''data-srcset''))
              else h') = h'"
      using b same(3) copied_same [of h' c "''srcset''"] by auto
    from True same(1) have "load_picture_child h' c =
       (let h1 = (if truthy (getAttribute h' c ''data-src'')
              then setAttribute h' c ''src'' (js_string (getAttribute h' c ''data-src''))
              else h');
            h2 = (if truthy (getAttribute h1 c ''data-srcset'')
              then setAttribute h1 c ''srcset'' (js_string (getAttribute h1 c ''data-srcset''))
              else h1)
        in h2)"
      by (simp add: load_picture_child_def)
    also have "\<dots> = h'"
      unfolding Let_def 1 2 ..
    finally show ?thesis .
  qed
qed

lemma load_audio_children_rerun:
  "load_audio_children h el i = (r, h') \<Longrightarrow> load_audio_children h' el i = (r, h')"
proof (induction h el i arbitrary: r h' rule: load_audio_children.induct)
  case (1 h el i)
  note run = "1.prems"
  from load_audio_children_kept [of h el i] run have k: "kept h h'" by simp
  then have ch: "children (h' el) = children (h el)" by (simp add: kept_def)
  show ?case
  proof (cases "i < length (children (h el))")
    case False
    from run False have "r = (if i \<le> length (children (h el)) then Inl TypeError else Inr ())" "h' = h"
      by (subst (asm) load_audio_children.simps, simp split: if_splits)+
    with False show ?thesis
      by (subst load_audio_children.simps) simp
  next
    case True
    let ?c = "children (h el) ! i"
    from True run have l: "load_audio_children (load_audio_child h ?c) el (Suc i) = (r, h')"
      by (subst (asm) load_audio_children.simps) simp
    from "1.IH" [OF _ True l] True have ih: "load_audio_children h' el (Suc i) = (r, h')"
      by simp
    from load_audio_children_kept [of "load_audio_child h ?c" el "Suc i"] l
    have "kept (load_audio_child h ?c) h'" by simp
    then have "load_audio_child h' ?c = h'" by (rule load_audio_child_rerun)
    with True ch ih show ?thesis
      by (subst load_audio_children.simps) simp
  qed
qed


lemma load_picture_children_rerun:
  "load_picture_children h el i = (r, h') \<Longrightarrow> load_picture_children h' el i = (r, h')"
proof (induction h el i arbitrary: r h' rule: load_picture_children.induct)
  case (1 h el i)
  note run = "1.prems"
  from load_picture_children_kept [of h el i] run have k: "kept h h'" by simp
  then have ch: "children (h' el) = children (h el)" by (simp add: kept_def)
  show ?case
  proof (cases "i < length (children (h el))")
    case False
    from run False have "r = (if i \<le> length (children (h el)) then Inl TypeError else Inr ())" "h' = h"
      by (subst (asm) load_picture_children.simps, simp split: if_splits)+
    with False show ?thesis
      by (subst load_picture_children.simps) simp
  next
    case True
    let ?c = "children (h el) ! i"
    from True run have l: "load_picture_children (load_picture_child h ?c) el (Suc i) = (r, h')"
      by (subst (asm) load_picture_children.simps) simp
    from "1.IH" [OF _ True l] True have ih: "load_picture_children h' el (Suc i) = (r, h')"
      by simp
    from load_picture_children_kept [of "load_picture_child h ?c" el "Suc i"] l
    have "kept (load_picture_child h ?c) h'" by simp
    then have "load_picture_child h' ?c = h'" by (rule load_picture_child_rerun)
    with True ch ih show ?thesis
      by (subst load_picture_children.simps) simp
  qed
qed

lemma load_idem:
  fixes h :: "'p heap"
  shows "load (snd (load h el)) el = load h el"
proof -
  define A where "A \<longleftrightarrow> tilde (indexOf ''audio, embed, iframe, img, picture, video''
                     (toLowerCase (tagName (h el)))) \<noteq> 0
            \<and> truthy (getAttribute h el ''data-src'')"
  define B where "B \<longleftrightarrow> tilde (indexOf ''image, tref, use'' (toLowerCase (tagName (h el)))) \<noteq> 0
            \<and> truthy (getAttribute h el ''data-xlink:href'')"
  define C where "C \<longleftrightarrow> tilde (indexOf ''audio, video'' (toLowerCase (tagName (h el)))) \<noteq> 0
            \<and> length (children (h el)) \<noteq> 0"
  define P where "P \<longleftrightarrow> toLowerCase (tagName (h el)) = ''picture'' \<and> length (children (h el)) \<noteq> 0"
  define h1 where "h1 = removeAttribute h el ''postpone''"
  define h2 where "h2 = (if A then setAttribute h1 el ''src'' (js_string (getAttribute h el ''data-src''))
             else h1)"
  define tail where "tail = (\<lambda>g :: 'p heap. if B then (Inr el, setAttribute g el ''xlink:href''
                                     (js_string (getAttribute h el ''data-xlink:href'')))
                  else if C then (case load_audio_children g el 0 of
                                     (Inl e, h3) \<Rightarrow> (Inl e, h3)
                                   | (Inr u, h3) \<Rightarrow> (Inr el, h3))
                  else if P then (case load_picture_children g el 0 of
                                     (Inl e, h3) \<Rightarrow> (Inl e, h3)
                                   | (Inr u, h3) \<Rightarrow> (Inr el, h3))
                  else (Inr el, g))"
  obtain r h' where run: "load h el = (r, h')" by (cases "load h el")
  have d1: "getAttribute h1 el ''data-src'' = getAttribute h el ''data-src''"
    "getAttribute h1 el ''data-xlink:href'' = getAttribute h el ''data-xlink:href''"
    "tagName (h1 el) = tagName (h el)" "children (h1 el) = children (h el)"
    by (simp_all add: h1_def getAttribute_removeAttribute)
  have k12: "kept h1 h2"
    using kept_set [of "''src''" h1 el] d1 by (simp add: h2_def kept_refl)
  have d2: "getAttribute h2 el ''data-xlink:href'' = getAttribute h el ''data-xlink:href''"
    "tagName (h2 el) = tagName (h el)" "children (h2 el) = children (h el)"
    using d1 by (simp_all add: h2_def getAttribute_setAttribute)
  have first: "load h el = tail h2"
    unfolding load_def Let_def h1_def [symmetric]
    apply (simp only: d1 A_def [symmetric] h2_def [symmetric])
    apply (simp only: d2 B_def [symmetric] C_def [symmetric] P_def [symmetric])
    apply (simp only: tail_def)
    done
  have k2: "kept h2 h'"
  proof -
    have "kept h2 (snd (tail h2))"
      using kept_set [of "''xlink:href''" h2 el] d2(1)
        load_audio_children_kept [of h2 el 0] load_picture_children_kept [of h2 el 0]
      by (cases B; cases C; cases P) (simp_all add: tail_def kept_refl)
    moreover from run first have "snd (tail h2) = h'" by simp
    ultimately show ?thesis by simp
  qed
  from kept_trans [OF k12 k2] have k1: "kept h1 h'" .
  then have d3: "tagName (h' el) = tagName (h el)" "children (h' el) = children (h el)"
    "getAttribute h' el ''data-src'' = getAttribute h el ''data-src''"
    "getAttribute h' el ''data-xlink:href'' = getAttribute h el ''data-xlink:href''"
    "getAttribute h' el ''postpone'' = None"
    by (simp_all add: kept_def h1_def getAttribute_removeAttribute)
  have r1: "removeAttribute h' el ''postpone'' = h'"
    using d3(5) by (rule removeAttribute_absent)
  have r2: "(if A then setAttribute h' el ''src'' (js_string (getAttribute h el ''data-src''))
             else h') = h'"
  proof (cases A)
    case True
    then have "copied h2 el ''src''"
      using copied_set [of "''src''" h1 el] d1 by (simp add: h2_def)
    with k2 have "copied h' el ''src''" by (simp add: kept_def)
    from copied_same [OF this] True d3(3) show ?thesis by simp
  next
    case False
    then show ?thesis by (rule if_not_P)
  qed
  have second: "load h' el = tail h'"
    unfolding load_def Let_def r1
    apply (simp only: d3 A_def [symmetric])
    apply (simp only: r2 d3 B_def [symmetric] C_def [symmetric] P_def [symmetric])
    apply (simp only: tail_def)
    done
  have "tail h' = (r, h')"
  proof (cases B)
    case b: True
    with run first have h': "h' = setAttribute h2 el ''xlink:href''
                                   (js_string (getAttribute h el ''data-xlink:href''))"
      and r: "r = Inr el" by (simp_all add: tail_def)
    have "copied h' el ''xlink:href''"
      unfolding h' using copied_set [of "''xlink:href''" h2 el] d2(1) by simp
    from copied_same [OF this] b r d3(4) show ?thesis by (simp add: tail_def)
  next
    case b: False
    show ?thesis
    proof (cases C)
      case c: True
      obtain r0 h0 where l: "load_audio_children h2 el 0 = (r0, h0)"
        by (cases "load_audio_children h2 el 0")
      with run first b c have "h0 = h'" "r = (case r0 of Inl e \<Rightarrow> Inl e | Inr u \<Rightarrow> Inr el)"
        by (cases r0; simp add: tail_def)+
      with load_audio_children_rerun [OF l] b c show ?thesis
        by (cases r0) (simp_all add: tail_def)
    next
      case c: False
      show ?thesis
      proof (cases P)
        case p: True
        obtain r0 h0 where l: "load_picture_children h2 el 0 = (r0, h0)"
          by (cases "load_picture_children h2 el 0")
        with run first b c p have "h0 = h'" "r = (case r0 of Inl e \<Rightarrow> Inl e | Inr u \<Rightarrow> Inr el)"
          by (cases r0; simp add: tail_def)+
        with load_picture_children_rerun [OF l] b c p show ?thesis
          by (cases r0) (simp_all add: tail_def)
      next
        case p: False
        with run first b c show ?thesis by (simp add: tail_def)
      qed
    qed
  qed
  with second run show ?thesis by simp
qed

text \<open>
  A child loop entered at or below the number of children always ends in the
  \<^verbatim>\<open>TypeError\<close> of the missing child, so \<^verbatim>\<open>load\<close> raises on every
  \<^verbatim>\<open>audio\<close>, \<^verbatim>\<open>video\<close> or \<^verbatim>\<open>picture\<close> element that has a child.
\<close>

lemma load_audio_children_raises:
  "i \<le> length (children (h el)) \<Longrightarrow> fst (load_audio_children h el i) = Inl TypeError"
proof (induction h el i rule: load_audio_children.induct)
  case (1 h el i)
  show ?case
  proof (cases "i < length (children (h el))")
    case True
    let ?h1 = "load_audio_child h (children (h el) ! i)"
    have "children (?h1 el) = children (h el)"
      using load_audio_child_kept [of h "children (h el) ! i"] by (simp add: kept_def)
    with True "1.IH" [OF "1.prems" True] show ?thesis
      by (subst load_audio_children.simps) simp
  next
    case False
    with "1.prems" show ?thesis
      by (subst load_audio_children.simps) simp
  qed
qed

lemma load_picture_children_raises_from:
  "i \<le> length (children (h el)) \<Longrightarrow> fst (load_picture_children h el i) = Inl TypeError"
proof (induction h el i rule: load_picture_children.induct)
  case (1 h el i)
  show ?case
  proof (cases "i < length (children (h el))")
    case True
    let ?h1 = "load_picture_child h (children (h el) ! i)"
    have "children (?h1 el) = children (h el)"
      using load_picture_child_kept [of h "children (h el) ! i"] by (simp add: kept_def)
    with True "1.IH" [OF "1.prems" True] show ?thesis
      by (subst load_picture_children.simps) simp
  next
    case False
    with "1.prems" show ?thesis
      by (subst load_picture_children.simps) simp
  qed
qed

lemma fst_rewrap [simp]:
  "fst (case p of (Inl e, h3) \<Rightarrow> (Inl e, h3) | (Inr u, h3) \<Rightarrow> (Inr el, h3))
     = (case fst p of Inl e \<Rightarrow> Inl e | Inr u \<Rightarrow> Inr el)"
  by (cases p; cases "fst p") auto

lemma indexOf_media:
  "indexOf ''image, tref, use'' ''audio'' = - 1"
  "indexOf ''image, tref, use'' ''video'' = - 1"
  "indexOf ''audio, video'' ''audio'' = 0"
  "indexOf ''audio, video'' ''video'' = 7"
  by (simp_all add: indexOf.simps startsWith.simps)

lemma load_with_children_raises:
  assumes "toLowerCase (tagName (h el)) \<in> {''audio'', ''video'', ''picture''}"
    and "children (h el) \<noteq> []"
  shows "fst (load h el) = Inl TypeError"
proof -
  let ?h1 = "removeAttribute h el ''postpone''"
  define h2 where "h2 = (if tilde (indexOf ''audio, embed, iframe, img, picture, video''
                            (toLowerCase (tagName (?h1 el)))) \<noteq> 0
                   \<and> truthy (getAttribute ?h1 el ''data-src'')
                then setAttribute ?h1 el ''src'' (js_string (getAttribute ?h1 el ''data-src''))
                else ?h1)"
  have t: "tagName (h2 el) = tagName (h el)" and c: "children (h2 el) = children (h el)"
    by (simp_all add: h2_def)
  have a: "fst (load_audio_children h2 el 0) = Inl TypeError"
    by (rule load_audio_children_raises) simp
  have p: "fst (load_picture_children h2 el 0) = Inl TypeError"
    by (rule load_picture_children_raises_from) simp
  show ?thesis
    unfolding load_def Let_def h2_def [symmetric]
    using assms a p
    by (auto simp: t c tilde_def indexOf_media indexOf_picture)
qed

text \<open>The example \<^verbatim>\<open>picture\<close>: the call raises.\<close>

lemma picture_load_raises: "fst (load picture_heap 1) = Inl TypeError"
  by (simp add: load_eval)

text \<open>
  Claim C10. For every element of any tag kind, activation removes the marker attribute as
  its first action and unconditionally: whatever deferred attributes are present, and
  whether the call returns or raises in a later copy step, the element has no
  \<^verbatim>\<open>postpone\<close> attribute in the heap the call leaves.
\<close>

theorem load_removes_marker_first: "getAttribute (snd (load h el)) el ''postpone'' = None"
  using load_kept [of h el] by (simp add: kept_def getAttribute_removeAttribute)

text \<open>
  On the example \<^verbatim>\<open>picture\<close> the call raises in its child loop, and the marker that
  was there before is gone all the same.
\<close>

theorem load_removes_marker_first_witness:
  "getAttribute picture_heap 1 ''postpone'' = Some []
   \<and> fst (load picture_heap 1) = Inl TypeError
   \<and> getAttribute (snd (load picture_heap 1)) 1 ''postpone'' = None"
proof -
  have 1: "getAttribute picture_heap 1 ''postpone'' = Some []"
    by (simp add: picture_heap_def getAttribute_def)
  have 2: "fst (load picture_heap 1) = Inl TypeError"
    by (rule picture_load_raises)
  from 1 2 load_removes_marker_first [of picture_heap 1] show ?thesis by simp
qed

text \<open>
  Claim C4 says that activating a \<^verbatim>\<open>picture\<close> whose \<^verbatim>\<open>source\<close> children carry
  \<^verbatim>\<open>data-src\<close> and \<^verbatim>\<open>data-srcset\<close> copies each child's deferred attributes,
  removes the marker, completes without error and returns the element. On the example
  \<^verbatim>\<open>picture\<close> with two such children the source copies both children's attributes
  and then raises a \<^verbatim>\<open>TypeError\<close>: the loop bound \<^verbatim>\<open>i <= el.children.length\<close>
  reads one child past the last.
\<close>

theorem load_picture_children_raises:
  "fst (load picture_heap 1) = Inl TypeError
   \<and> getAttribute (snd (load picture_heap 1)) 2 ''src'' = Some ''a.webp''
   \<and> getAttribute (snd (load picture_heap 1)) 2 ''srcset'' = Some ''a2.webp 2x''
   \<and> getAttribute (snd (load picture_heap 1)) 3 ''src'' = Some ''a.jpg''
   \<and> getAttribute (snd (load picture_heap 1)) 3 ''srcset'' = Some ''a2.jpg 2x''"
  by (simp add: load_eval)

text \<open>
  Claim C5 says that a second activation of an element neither copies differently nor
  raises. On the example \<^verbatim>\<open>picture\<close> the second call runs the same child loop as
  the first and raises the same \<^verbatim>\<open>TypeError\<close>.
\<close>

theorem load_second_call_raises:
  "fst (load (snd (load picture_heap 1)) 1) = Inl TypeError"
  unfolding load_idem by (rule picture_load_raises)

section \<open>Discovery\<close>

lemma selector_tags_tags:
  "selector_tags tags =
     [''audio'', ''embed'', ''iframe'', ''img'', ''image'', ''picture'', ''use'', ''video'', ''tref'']"
  by (simp add: selector_tags_def tags_def trim_def)

lemma getElements_loop_filter:
  "getElements_loop h ms found = found @ filter (marked h) ms"
  by (induction ms arbitrary: found) (auto simp: marked_def split: option.splits)

text \<open>
  Claim C7. Discovery returns exactly the document's allow-listed elements (audio, embed,
  iframe, img, image, picture, use, video, tref) whose marker attribute is present and is
  not the string \<^verbatim>\<open>"false"\<close>, in document order; an element whose marker is
  \<^verbatim>\<open>"false"\<close> is never among them.
\<close>

theorem getElements_exact:
  "elements (getElements st) =
     filter (\<lambda>r. allow_listed (heap st) r \<and> marked (heap st) r) (docOrder st)
   \<and> (\<forall>r. getAttribute (heap st) r ''postpone'' = Some ''false'' \<longrightarrow>
          r \<notin> set (elements (getElements st)))"
  by (auto simp: getElements_def getElements_loop_filter querySelectorAll_def selector_tags_tags
        allow_listed_def marked_def)

text \<open>
  On the example page discovery keeps the marked image and the marked video, in that
  order, and leaves out the image with \<^verbatim>\<open>postpone="false"\<close>.
\<close>

theorem getElements_exact_witness:
  "elements (getElements c7_state) = [1, 4]
   \<and> getAttribute (heap c7_state) 2 ''postpone'' = Some ''false''
   \<and> 2 \<notin> set (elements (getElements c7_state))"
proof -
  have f: "filter (\<lambda>r. allow_listed (heap c7_state) r \<and> marked (heap c7_state) r)
             (docOrder c7_state) = [1, 4]"
    by (simp add: c7_state_def allow_listed_def marked_def eval_defs lower_examples)
  have a: "getAttribute (heap c7_state) 2 ''postpone'' = Some ''false''"
    by (simp add: c7_state_def eval_defs)
  from getElements_exact [of c7_state] f a show ?thesis by simp
qed

section \<open>Geometry\<close>

text \<open>On a finite chain of offset parents the loop of \<^verbatim>\<open>offsetTop\<close> ends, with the sum.\<close>

lemma offsetTop_loop_chain:
  "offset_chain h temp xs \<Longrightarrow>
   offsetTop_loop h temp ofs = Some (foldl (\<lambda>total r. total + elOffsetTop (h r)) ofs xs)"
proof (induction xs arbitrary: temp ofs)
  case Nil
  then show ?case
    by (subst offsetTop_loop.simps) (simp split: option.splits)
next
  case (Cons x xs)
  then show ?case
    by (subst offsetTop_loop.simps) simp
qed

lemma offsetTop_chain:
  "offset_chain h el xs \<Longrightarrow> offsetTop h el = Some (chain_offset h xs)"
  by (simp add: offsetTop_def chain_offset_def offsetTop_loop_chain)

text \<open>
  Claim C8. For all offset and scroll values, of whatever numeric type, \<^verbatim>\<open>isVisible\<close>
  reports an element visible exactly when viewport height + scroll offset \<open>\<ge>\<close> element
  top offset. The element top offset is the sum of \<^verbatim>\<open>offsetTop\<close> over the element's
  chain of offset parents up to, and excluding, the body. The scroll offset is the
  \<^verbatim>\<open>scrollTop\<close> of the container plus the container's own such sum, where the container
  is the node passed as scroll element, or \<^verbatim>\<open>document.body\<close> when the string
  \<^verbatim>\<open>"window"\<close> or nothing is passed. There is no lower bound: in an arithmetic where
  adding a non-negative height to a number does not bring it below a smaller one, an
  element whose top lies above the scroll offset is reported visible.
\<close>

theorem isVisible_inequality:
  fixes st :: "('p::{plus,zero,ord}) state"
  assumes "offset_chain (heap st) (Some el) xs"
  shows "(\<forall>scrollElement c ys.
            (scrollElement = Some (Elem c)
             \<or> (scrollElement = Some Window \<or> scrollElement = None) \<and> body st = Some c)
            \<and> offset_chain (heap st) (Some c) ys \<longrightarrow>
            isVisible st (Some el) scrollElement =
              Some (Inr (clientHeight st + (scrollTop (heap st c) + chain_offset (heap st) ys)
                           \<ge> chain_offset (heap st) xs))
            \<and> ((\<forall>a b d :: 'p. 0 \<le> a \<and> d < b \<longrightarrow> d \<le> a + b)
                 \<and> 0 \<le> clientHeight st
                 \<and> chain_offset (heap st) xs
                      < scrollTop (heap st c) + chain_offset (heap st) ys \<longrightarrow>
                 isVisible st (Some el) scrollElement = Some (Inr True)))"
proof (intro allI impI, elim conjE)
  fix scrollElement c ys
  assume t: "scrollElement = Some (Elem c)
             \<or> (scrollElement = Some Window \<or> scrollElement = None) \<and> body st = Some c"
    and c: "offset_chain (heap st) (Some c) ys"
  from t have r: "(case (case scrollElement of None \<Rightarrow> Window | Some s \<Rightarrow> s) of
                     Window \<Rightarrow> body st | Elem r \<Rightarrow> Some r) = Some c"
    by auto
  have v: "isVisible st (Some el) scrollElement =
              Some (Inr (clientHeight st + (scrollTop (heap st c) + chain_offset (heap st) ys)
                           \<ge> chain_offset (heap st) xs))"
    unfolding isVisible_def Let_def r
    by (simp add: offsetTop_chain [OF assms] offsetTop_chain [OF c])
  show "isVisible st (Some el) scrollElement =
              Some (Inr (clientHeight st + (scrollTop (heap st c) + chain_offset (heap st) ys)
                           \<ge> chain_offset (heap st) xs))
            \<and> ((\<forall>a b d :: 'p. 0 \<le> a \<and> d < b \<longrightarrow> d \<le> a + b)
                 \<and> 0 \<le> clientHeight st
                 \<and> chain_offset (heap st) xs
                      < scrollTop (heap st c) + chain_offset (heap st) ys \<longrightarrow>
                 isVisible st (Some el) scrollElement = Some (Inr True))"
    using v by auto
qed

text \<open>
  On the example page the first image sits at 150 while the body is scrolled by 300; it
  is reported visible. The second image sits at 1000: against the viewport (the body,
  scrolled by 300) it is not visible, against the \<^verbatim>\<open>div\<close> at 40 scrolled by 500 it is.
\<close>

theorem isVisible_inequality_witness:
  "offset_chain (heap c8_state) (Some 1) [1, 2]
   \<and> offset_chain (heap c8_state) (Some 4) [4]
   \<and> body c8_state = Some 0
   \<and> offset_chain (heap c8_state) (Some 0) []
   \<and> offset_chain (heap c8_state) (Some 3) [3]
   \<and> chain_offset (heap c8_state) [1, 2] = 150
   \<and> chain_offset (heap c8_state) [4] = 1000
   \<and> scrollTop (heap c8_state 0) + chain_offset (heap c8_state) [] = 300
   \<and> scrollTop (heap c8_state 3) + chain_offset (heap c8_state) [3] = 540
   \<and> isVisible c8_state (Some 1) (Some Window) = Some (Inr True)
   \<and> isVisible c8_state (Some 1) None = Some (Inr True)
   \<and> isVisible c8_state (Some 4) (Some Window) = Some (Inr False)
   \<and> isVisible c8_state (Some 4) (Some (Elem 3)) = Some (Inr True)"
proof -
  have 1: "offset_chain (heap c8_state) (Some 1) [1, 2]"
    by (simp add: c8_state_def eval_defs lower_examples)
  have 4: "offset_chain (heap c8_state) (Some 4) [4]"
    by (simp add: c8_state_def eval_defs lower_examples)
  have b: "body c8_state = Some 0"
    by (simp add: c8_state_def blank_state_def)
  have 0: "offset_chain (heap c8_state) (Some 0) []"
    by (simp add: c8_state_def eval_defs lower_examples)
  have 3: "offset_chain (heap c8_state) (Some 3) [3]"
    by (simp add: c8_state_def eval_defs lower_examples)
  have s1: "chain_offset (heap c8_state) [1, 2] = 150"
    by (simp add: c8_state_def chain_offset_def eval_defs)
  have s4: "chain_offset (heap c8_state) [4] = 1000"
    by (simp add: c8_state_def chain_offset_def eval_defs)
  have s0: "scrollTop (heap c8_state 0) + chain_offset (heap c8_state) [] = 300"
    by (simp add: c8_state_def chain_offset_def eval_defs)
  have s3: "scrollTop (heap c8_state 3) + chain_offset (heap c8_state) [3] = 540"
    by (simp add: c8_state_def chain_offset_def eval_defs)
  have h: "clientHeight c8_state = 600"
    by (simp add: c8_state_def blank_state_def)
  have m: "\<forall>a b d :: int. 0 \<le> a \<and> d < b \<longrightarrow> d \<le> a + b"
    by simp
  from isVisible_inequality [OF 1, rule_format, of "Some Window" 0 "[]"] b 0 s1 s0 h m
  have v1: "isVisible c8_state (Some 1) (Some Window) = Some (Inr True)"
    by simp
  from isVisible_inequality [OF 1, rule_format, of None 0 "[]"] b 0 s1 s0 h
  have v2: "isVisible c8_state (Some 1) None = Some (Inr True)"
    by simp
  from isVisible_inequality [OF 4, rule_format, of "Some Window" 0 "[]"] b 0 s4 s0 h
  have v3: "isVisible c8_state (Some 4) (Some Window) = Some (Inr False)"
    by simp
  from isVisible_inequality [OF 4, rule_format, of "Some (Elem 3)" 3 "[3]"] 3 s4 s3 h
  have v4: "isVisible c8_state (Some 4) (Some (Elem 3)) = Some (Inr True)"
    by simp
  from 1 4 b 0 3 s1 s4 s0 s3 v1 v2 v3 v4 show ?thesis by simp
qed

section \<open>The scroll handler\<close>

lemma index_get_undefined:
  "ident \<notin> fst ` set gs \<Longrightarrow> ident \<notin> fst ` set object_prototype \<Longrightarrow>
   index_get gs ident = Undefined"
  by (simp add: index_get_def map_of_eq_None_iff [THEN iffD2])

text \<open>
  Claim C1, as amended. For every scroll event whose originating container has no entry in
  the group index, and whose identifier is not the name of a member that the index object
  inherits from \<^verbatim>\<open>Object.prototype\<close>, the scroll handler raises a \<^verbatim>\<open>TypeError\<close>
  before it looks at any element, and leaves the group index and all tracked elements
  unchanged. (The claim as stated has the handler return without raising.)
\<close>

theorem scrollHandler_unregistered_raises:
  assumes "event_key st e \<notin> fst ` set (scrollElements st)"
    and "event_key st e \<notin> fst ` set object_prototype"
  shows "scrollHandler st e = Some (Inl TypeError, st)"
  using assms by (simp add: scrollHandler_def index_get_undefined)

text \<open>
  An event from the image of the example page, which has no \<^verbatim>\<open>data-id\<close>: the key is
  \<^verbatim>\<open>"null"\<close>, no group has it, nothing inherited is called so, and the handler raises.
\<close>

theorem scrollHandler_unregistered_raises_witness:
  "event_key c1_state c1_event_no_id = ''null''
   \<and> event_key c1_state c1_event_no_id \<notin> fst ` set (scrollElements c1_state)
   \<and> event_key c1_state c1_event_no_id \<notin> fst ` set object_prototype
   \<and> scrollHandler c1_state c1_event_no_id = Some (Inl TypeError, c1_state)"
proof -
  have k: "event_key c1_state c1_event_no_id = ''null''"
    by (simp add: event_key_def c1_state_def c1_event_no_id_def eval_defs)
  have h: "event_key c1_state c1_event_no_id \<notin> fst ` set (scrollElements c1_state)"
    by (simp add: k) (simp add: c1_state_def blank_state_def)
  have p: "event_key c1_state c1_event_no_id \<notin> fst ` set object_prototype"
    by (simp add: k object_prototype_def)
  from k h p scrollHandler_unregistered_raises [OF h p] show ?thesis by simp
qed

text \<open>
  The claim as stated fails on an event from the unregistered \<^verbatim>\<open>div\<close>: the handler
  does not return, it raises.
\<close>

theorem scrollHandler_unregistered_counterexample:
  "event_key c1_state c1_event \<notin> fst ` set (scrollElements c1_state)
   \<and> scrollHandler c1_state c1_event = Some (Inl TypeError, c1_state)"
  by (simp add: scrollHandler_def event_key_def c1_state_def c1_event_def eval_defs)

text \<open>
  Where the identifier of an unregistered container is the name of an inherited member
  without elements to loop over, such as \<^verbatim>\<open>toString\<close>, the handler finds that
  member, skips its loop and returns; the state is as it was.
\<close>

lemma scrollHandler_inherited_returns:
  assumes "event_key st e \<notin> fst ` set (scrollElements st)"
    and "map_of object_prototype (event_key st e) = Some len" and "len = None \<or> len = Some 0"
  shows "scrollHandler st e = Some (Inr (), st)"
  using assms
  by (auto simp: scrollHandler_def index_get_def map_of_eq_None_iff [THEN iffD2])

lemma scrollHandler_toString_example:
  "event_key c1_inherited_state c1_inherited_event = ''toString''
   \<and> scrollHandler c1_inherited_state c1_inherited_event = Some (Inr (), c1_inherited_state)"
  by (simp add: scrollHandler_def event_key_def c1_inherited_state_def c1_state_def
      c1_inherited_event_def eval_defs)

section \<open>Grouping\<close>

lemma heap_ext_refl: "heap_ext h h"
  by (simp add: heap_ext_def)

lemma heap_ext_trans: "heap_ext h h1 \<Longrightarrow> heap_ext h1 h2 \<Longrightarrow> heap_ext h h2"
  by (simp add: heap_ext_def)

lemma heap_ext_setId:
  "\<not> truthy (getAttribute h se ''data-id'') \<Longrightarrow> heap_ext h (setAttribute h se ''data-id'' v)"
  by (simp add: heap_ext_def getAttribute_setAttribute)

lemma ext_refl: "ext st st"
  by (simp add: ext_def heap_ext_refl)

lemma ext_trans: "ext st st1 \<Longrightarrow> ext st1 st2 \<Longrightarrow> ext st st2"
  by (auto simp: ext_def intro: heap_ext_trans)





text \<open>Grouping one element either adds it to the index or raises and changes nothing.\<close>

lemma group_element_cases:
  assumes "group_element st k el se = (r, st1)"
  shows "(\<exists>e. r = Inl e \<and> st1 = st \<and> add_to_group (scrollElements st) k el se = Inl e)
         \<or> (\<exists>gs. r = Inr () \<and> st1 = st\<lparr>scrollElements := gs\<rparr>
                 \<and> add_to_group (scrollElements st) k el se = Inr gs)"
  using assms by (auto simp: group_element_def split: sum.splits)

lemma group_element_ext: "group_element st k el se = (r, st1) \<Longrightarrow> ext st st1"
  by (drule group_element_cases) (auto simp: ext_def heap_ext_refl)


text \<open>
  The four ways through the body of the loop: no container named; a selector that raises
  or finds nothing; a container with an identifier; a container that is given one.
\<close>

lemma body_cases [consumes 1, case_names window none ident generated]:
  assumes b: "getScrollElements_body st el = (r, st1)"
  obtains
    (window) "\<not> truthy (getAttribute (heap st) el ''data-scroll-element'')"
      and "group_element st ''window'' el Window = (r, st1)"
  | (none) e where "truthy (getAttribute (heap st) el ''data-scroll-element'')"
      and "r = Inl e" and "st1 = st"
      and "\<And>se. querySelector st (heap st)
                   (js_string (getAttribute (heap st) el ''data-scroll-element''))
                 \<noteq> Inr (Some se)"
  | (ident) se where "truthy (getAttribute (heap st) el ''data-scroll-element'')"
      and "querySelector st (heap st)
             (js_string (getAttribute (heap st) el ''data-scroll-element'')) = Inr (Some se)"
      and "truthy (getAttribute (heap st) se ''data-id'')"
      and "group_element st (js_string (getAttribute (heap st) se ''data-id'')) el (Elem se)
             = (r, st1)"
  | (generated) se where "truthy (getAttribute (heap st) el ''data-scroll-element'')"
      and "querySelector st (heap st)
             (js_string (getAttribute (heap st) el ''data-scroll-element'')) = Inr (Some se)"
      and "\<not> truthy (getAttribute (heap st) se ''data-id'')"
      and "group_element
             (st\<lparr>heap := setAttribute (heap st) se ''data-id'' (show_int (clock st (ticks st))),
                 ticks := Suc (ticks st)\<rparr>)
             (show_int (clock st (ticks st))) el (Elem se) = (r, st1)"
proof (cases "truthy (getAttribute (heap st) el ''data-scroll-element'')")
  case False
  with b have "group_element st ''window'' el Window = (r, st1)"
    by (simp add: getScrollElements_body_def)
  with False show ?thesis by (rule window)
next
  case t: True
  show ?thesis
  proof (cases "querySelector st (heap st)
                  (js_string (getAttribute (heap st) el ''data-scroll-element''))")
    case (Inl e)
    with b t have "r = Inl e" and "st1 = st"
      by (simp_all add: getScrollElements_body_def)
    with t Inl show ?thesis by (intro none) simp_all
  next
    case (Inr x)
    show ?thesis
    proof (cases x)
      case None
      with b t Inr have "r = Inl TypeError" and "st1 = st"
        by (simp_all add: getScrollElements_body_def)
      with t Inr None show ?thesis by (intro none) simp_all
    next
      case (Some se)
      with Inr have q: "querySelector st (heap st)
             (js_string (getAttribute (heap st) el ''data-scroll-element'')) = Inr (Some se)"
        by simp
      show ?thesis
      proof (cases "truthy (getAttribute (heap st) se ''data-id'')")
        case True
        with b t q have "group_element st (js_string (getAttribute (heap st) se ''data-id''))
                           el (Elem se) = (r, st1)"
          by (simp add: getScrollElements_body_def)
        with t q True show ?thesis by (rule ident)
      next
        case False
        with b t q have "group_element
             (st\<lparr>heap := setAttribute (heap st) se ''data-id'' (show_int (clock st (ticks st))),
                 ticks := Suc (ticks st)\<rparr>)
             (show_int (clock st (ticks st))) el (Elem se) = (r, st1)"
          by (simp add: getScrollElements_body_def Let_def)
        with t q False show ?thesis by (rule generated)
      qed
    qed
  qed
qed


lemma body_ext:
  assumes "getScrollElements_body st el = (r, st1)"
  shows "ext st st1"
  using assms
proof (cases rule: body_cases)
  case window
  from window(2) show ?thesis by (rule group_element_ext)
next
  case (none e)
  then show ?thesis by (simp add: ext_refl)
next
  case (ident se)
  from ident(4) show ?thesis by (rule group_element_ext)
next
  case (generated se)
  have "ext st (st\<lparr>heap := setAttribute (heap st) se ''data-id''
                                (show_int (clock st (ticks st))),
                      ticks := Suc (ticks st)\<rparr>)"
    using generated(3) by (simp add: ext_def heap_ext_setId)
  from this group_element_ext [OF generated(4)] show ?thesis by (rule ext_trans)
qed

lemma loop_ext: "getScrollElements_loop st els = (r, st') \<Longrightarrow> ext st st'"
proof (induction els arbitrary: st)
  case Nil
  then show ?case by (simp add: ext_refl)
next
  case (Cons el els)
  obtain r1 st1 where b: "getScrollElements_body st el = (r1, st1)"
    by (cases "getScrollElements_body st el")
  show ?case
  proof (cases r1)
    case (Inl e)
    with b Cons.prems show ?thesis
      using body_ext [OF b] by simp
  next
    case (Inr u)
    with b Cons.prems have "getScrollElements_loop st1 els = (r, st')" by simp
    from Cons.IH [OF this] body_ext [OF b] show ?thesis by (rule ext_trans [rotated])
  qed
qed

lemma loop_append:
  "getScrollElements_loop st (xs @ ys) =
     (case getScrollElements_loop st xs of
        (Inl e, s) \<Rightarrow> (Inl e, s)
      | (Inr u, s) \<Rightarrow> getScrollElements_loop s ys)"
  by (induction xs arbitrary: st) (auto split: prod.splits sum.splits)

text \<open>
  Claim C2, as amended. For the first tracked element whose explicit scroll-container
  selector resolves to no node in the document as it stands when the pass reaches that
  element (with the identifiers the pass has written so far), the grouping step raises a
  \<^verbatim>\<open>TypeError\<close> there: the elements before it have been grouped, and the state is left
  as grouping them left it, so that element and every element after it are in no group.
  (The claim as stated has the step go on without an error.)
\<close>

theorem getScrollElements_missing_container:
  assumes "elements st = pre @ el # post"
    and "getScrollElements_loop (st\<lparr>scrollElements := []\<rparr>) pre = (Inr (), st')"
    and "truthy (getAttribute (heap st) el ''data-scroll-element'')"
    and "querySelector st (heap st')
           (js_string (getAttribute (heap st) el ''data-scroll-element'')) = Inr None"
  shows "getScrollElements st = (Inl TypeError, st')"
proof -
  from loop_ext [OF assms(2)] have e: "ext st st'" by (simp add: ext_def)
  then have "getAttribute (heap st') el ''data-scroll-element''
               = getAttribute (heap st) el ''data-scroll-element''"
    and "querySelector st' = querySelector st"
    by (simp_all add: ext_def heap_ext_def)
  with assms(3,4) have "getScrollElements_body st' el = (Inl TypeError, st')"
    by (simp add: getScrollElements_body_def)
  with assms(1,2) show ?thesis
    by (simp add: getScrollElements_def loop_append)
qed

text \<open>
  On the second example page the first image is grouped under the viewport, the step
  raises at the second, and the third is left out.
\<close>

theorem getScrollElements_missing_container_witness:
  "elements c2_later_state = [1] @ 2 # [3]
   \<and> getScrollElements_loop (c2_later_state\<lparr>scrollElements := []\<rparr>) [1]
       = (Inr (), c2_later_state\<lparr>scrollElements :=
                    [(''window'', \<lparr>members = [1], element = Window, callback = None\<rparr>)]\<rparr>)
   \<and> truthy (getAttribute (heap c2_later_state) 2 ''data-scroll-element'')
   \<and> querySelector c2_later_state
         (heap (c2_later_state\<lparr>scrollElements :=
                    [(''window'', \<lparr>members = [1], element = Window, callback = None\<rparr>)]\<rparr>))
         (js_string (getAttribute (heap c2_later_state) 2 ''data-scroll-element'')) = Inr None
   \<and> getScrollElements c2_later_state
       = (Inl TypeError, c2_later_state\<lparr>scrollElements :=
                    [(''window'', \<lparr>members = [1], element = Window, callback = None\<rparr>)]\<rparr>)"
proof -
  have 1: "elements c2_later_state = [1] @ 2 # [3]"
    by (simp add: c2_later_state_def blank_state_def)
  have 2: "getScrollElements_loop (c2_later_state\<lparr>scrollElements := []\<rparr>) [1]
       = (Inr (), c2_later_state\<lparr>scrollElements :=
                    [(''window'', \<lparr>members = [1], element = Window, callback = None\<rparr>)]\<rparr>)"
    by (simp add: c2_later_state_def eval_defs)
  have 3: "truthy (getAttribute (heap c2_later_state) 2 ''data-scroll-element'')"
    by (simp add: c2_later_state_def eval_defs)
  have 4: "querySelector c2_later_state
         (heap (c2_later_state\<lparr>scrollElements :=
                    [(''window'', \<lparr>members = [1], element = Window, callback = None\<rparr>)]\<rparr>))
         (js_string (getAttribute (heap c2_later_state) 2 ''data-scroll-element'')) = Inr None"
    by (simp add: c2_later_state_def eval_defs)
  from 1 2 3 4 getScrollElements_missing_container [OF 1 2 3 4] show ?thesis by simp
qed

text \<open>
  The claim as stated fails on the first example page: the step raises at the malformed
  first image, and the well-formed second image is in no group.
\<close>

theorem getScrollElements_missing_container_counterexample:
  "truthy (getAttribute (heap c2_state) 1 ''data-scroll-element'')
   \<and> querySelector c2_state (heap c2_state)
        (js_string (getAttribute (heap c2_state) 1 ''data-scroll-element'')) = Inr None
   \<and> fst (getScrollElements c2_state) = Inl TypeError
   \<and> scrollElements (snd (getScrollElements c2_state)) = []"
  by (simp add: c2_state_def eval_defs)

text \<open>
  An earlier element can end the pass as well: where its container carries an identifier
  that names an inherited member of the index, the pass raises at that element.
\<close>

lemma add_to_group_inherited:
  "k \<notin> fst ` set gs \<Longrightarrow> map_of object_prototype k = Some len \<Longrightarrow>
   add_to_group gs k el se = Inl TypeError"
  by (simp add: add_to_group_def index_get_def map_of_eq_None_iff [THEN iffD2])

text \<open>
  Claim C9 says that two distinct containers without an identifier are given distinct
  identifiers within one grouping pass, so that their elements end up in distinct groups.
  The source takes the identifier from the clock in milliseconds. On the example page
  both containers are reached within one millisecond: both are given the same
  \<^verbatim>\<open>data-id\<close>, and the two images share one group, which keeps the first container.
\<close>

theorem getScrollElements_identifier_collision:
  "fst (getScrollElements c9_state) = Inr ()
   \<and> scrollElements (snd (getScrollElements c9_state))
       = [(''1700000000000'', \<lparr>members = [1, 2], element = Elem 10, callback = None\<rparr>)]
   \<and> getAttribute (heap c9_state) 10 ''data-id'' = None
   \<and> getAttribute (heap c9_state) 11 ''data-id'' = None
   \<and> getAttribute (heap (snd (getScrollElements c9_state))) 10 ''data-id''
       = Some ''1700000000000''
   \<and> getAttribute (heap (snd (getScrollElements c9_state))) 11 ''data-id''
       = Some ''1700000000000''"
  by (simp add: c9_state_def eval_defs show_example)

subsection \<open>Grouping again\<close>








text \<open>The index of a pass has a target for every group and no callbacks.\<close>

lemma listener_target_members [simp]:
  "listener_target k (g\<lparr>members := m\<rparr>) = listener_target k g"
  by (simp add: listener_target_def)

lemma listener_target_callback [simp]:
  "listener_target k (g\<lparr>callback := c\<rparr>) = listener_target k g"
  by (simp add: listener_target_def)












section \<open>Binding\<close>






















section \<open>Polling\<close>

text \<open>
  After an empty previous snapshot \<^verbatim>\<open>watch\<close> never calls \<^verbatim>\<open>postpone\<close>, whatever
  the fresh snapshot is: it refreshes \<^verbatim>\<open>this.elements\<close> and sets the timer.
\<close>

lemma watch_empty_previous:
  "watch (Some []) st =
     (Inr (), (getElements st)\<lparr>timeout :=
        Some (stringifyElements (getElements st) (elements (getElements st)))\<rparr>)"
  by (simp add: watch_def truthy_def Let_def)

text \<open>
  Claim C3 says that a poll tick rebuilds whenever the fresh snapshot differs from the
  previous one, also when the previous candidate set was empty. On the example page the
  previous snapshot is the empty string and the fresh one is not, yet \<^verbatim>\<open>watch\<close>
  does not call \<^verbatim>\<open>postpone\<close>: the test \<^verbatim>\<open>elementsString && ...\<close> takes the empty
  string for an absent argument. The index and the listeners stay empty, where a rebuild
  would have bound a listener on the window.
\<close>

theorem watch_skips_after_empty_snapshot:
  "stringifyElements (getElements c3_state) (elements (getElements c3_state)) = ''<img>''
   \<and> watch (Some []) c3_state = (Inr (), (getElements c3_state)\<lparr>timeout := Some ''<img>''\<rparr>)
   \<and> elements (getElements c3_state) = [1]
   \<and> scrollElements (snd (watch (Some []) c3_state)) = []
   \<and> listeners (snd (watch (Some []) c3_state)) = []
   \<and> listeners (snd (postpone (getElements c3_state))) = [(WindowTarget, 1)]"
  by (simp add: watch_def stringifyElements_def postpone_def c3_state_def eval_defs
      listener_target_def removeEventListener_def
      getElements_def querySelectorAll_def selector_tags_tags lower_examples
      fresh_callback_def addEventListener_def)

end
